theory Spec2Isabelle
  imports Main "HOL-Library.Sublist" "HOL-Library.AList"
begin

section \<open>The filesystem underneath the facade\<close>

text \<open>
  Every operation of \<^verbatim>\<open>BaseFileManager\<close> is a short sequence of calls into
  \<^verbatim>\<open>std::filesystem\<close> and \<^verbatim>\<open>std::ofstream\<close>. The library is not part of the
  repository, so this section fixes the behaviour the development assumes of it: a tree of
  directories and regular files, addressed by paths.

  \<^item> A path is the sequence of its components (the names between separators); the empty
    sequence is the empty path, which names nothing. The component \<^verbatim>\<open>.\<close> stays in the
    directory it is read in. The root of the tree is the working directory of the process.
    Links, \<^verbatim>\<open>..\<close>, drive letters and files that are neither regular nor directories are
    not modelled.
  \<^item> A directory records how an attempt to enumerate it ends: \<open>Readable\<close> delivers all
    entries; \<open>Denied\<close> refuses to open it (permission denied); \<open>Faulty k\<close> delivers the
    first \<open>k\<close> entries and then reports an error that is not a permission error.
    Enumeration order is the order of the entry list.
  \<^item> Status queries (\<^verbatim>\<open>exists\<close>, \<^verbatim>\<open>is_directory\<close>, \<^verbatim>\<open>is_regular_file\<close>) always
    answer; creating and removing entries is refused only for structural reasons (missing
    parent, wrong kind, directory not empty).
\<close>

type_synonym name = string
type_synonym path = "name list"

datatype access = Readable | Denied | Faulty nat

datatype node = File | Dir access "(name \<times> node) list"

datatype filesystem_error = Filesystem_error

fun walk_to :: "path \<Rightarrow> node \<Rightarrow> node option" where
  "walk_to [] nd = Some nd"
| "walk_to (n # p) nd =
     (case nd of
        File \<Rightarrow> None
      | Dir a es \<Rightarrow>
          if n = ''.'' then walk_to p nd
          else (case map_of es n of None \<Rightarrow> None | Some c \<Rightarrow> walk_to p c))"

definition lookup :: "path \<Rightarrow> node \<Rightarrow> node option" where
  "lookup p fs = (if p = [] then None else walk_to p fs)"

definition exists :: "path \<Rightarrow> node \<Rightarrow> bool" where
  "exists p fs = (lookup p fs \<noteq> None)"

definition is_directory :: "path \<Rightarrow> node \<Rightarrow> bool" where
  "is_directory p fs = (case lookup p fs of Some (Dir a es) \<Rightarrow> True | _ \<Rightarrow> False)"

definition is_regular_file :: "path \<Rightarrow> node \<Rightarrow> bool" where
  "is_regular_file p fs = (lookup p fs = Some File)"

text \<open>\<open>put p v\<close> binds the last component of \<open>p\<close> to \<open>v\<close> in the directory the rest of
  \<open>p\<close> leads to; \<open>del p\<close> removes that binding. Both answer \<open>None\<close> when that directory
  cannot be reached or \<open>p\<close> does not end in a name.\<close>

fun put :: "path \<Rightarrow> node \<Rightarrow> node \<Rightarrow> node option" where
  "put [] v nd = None"
| "put (n # p) v nd =
     (case nd of
        File \<Rightarrow> None
      | Dir a es \<Rightarrow>
          if n = ''.'' then put p v nd
          else if p = [] then Some (Dir a (AList.update n v es))
          else (case map_of es n of
                  None \<Rightarrow> None
                | Some c \<Rightarrow> map_option (\<lambda>c'. Dir a (AList.update n c' es)) (put p v c)))"

fun del :: "path \<Rightarrow> node \<Rightarrow> node option" where
  "del [] nd = None"
| "del (n # p) nd =
     (case nd of
        File \<Rightarrow> None
      | Dir a es \<Rightarrow>
          if n = ''.'' then del p nd
          else if p = [] then Some (Dir a (AList.delete n es))
          else (case map_of es n of
                  None \<Rightarrow> None
                | Some c \<Rightarrow> map_option (\<lambda>c'. Dir a (AList.update n c' es)) (del p c)))"

text \<open>\<open>graft p v\<close> replaces the node that \<open>p\<close> resolves to by \<open>v\<close> (used for the state a
  recursive removal leaves behind when it stops half way).\<close>

fun graft :: "path \<Rightarrow> node \<Rightarrow> node \<Rightarrow> node" where
  "graft [] v nd = v"
| "graft (n # p) v nd =
     (case nd of
        File \<Rightarrow> nd
      | Dir a es \<Rightarrow>
          if n = ''.'' then graft p v nd
          else (case map_of es n of
                  None \<Rightarrow> nd
                | Some c \<Rightarrow> Dir a (AList.update n (graft p v c) es)))"

subsection \<open>Library calls\<close>

text \<open>\<^verbatim>\<open>std::ofstream file(path)\<close>: create or truncate a regular file; \<open>None\<close> is a stream
  that could not be opened.\<close>

definition ofstream :: "path \<Rightarrow> node \<Rightarrow> node option" where
  "ofstream p fs = (case lookup p fs of Some (Dir a es) \<Rightarrow> None | _ \<Rightarrow> put p File fs)"

text \<open>\<^verbatim>\<open>fs::remove\<close>: removes a file or an empty directory; the result says whether
  anything was there.\<close>

definition fs_remove :: "path \<Rightarrow> node \<Rightarrow> filesystem_error + bool \<times> node" where
  "fs_remove p fs =
     (case lookup p fs of
        None \<Rightarrow> Inr (False, fs)
      | Some File \<Rightarrow>
          (case del p fs of None \<Rightarrow> Inl Filesystem_error | Some fs' \<Rightarrow> Inr (True, fs'))
      | Some (Dir a es) \<Rightarrow>
          if es \<noteq> [] then Inl Filesystem_error
          else (case del p fs of None \<Rightarrow> Inl Filesystem_error | Some fs' \<Rightarrow> Inr (True, fs')))"

text \<open>\<^verbatim>\<open>fs::create_directory\<close>: \<open>False\<close> when the directory is already there, an error
  when a file is in the way or the parent is missing.\<close>

definition create_directory :: "path \<Rightarrow> node \<Rightarrow> filesystem_error + bool \<times> node" where
  "create_directory p fs =
     (case lookup p fs of
        Some (Dir a es) \<Rightarrow> Inr (False, fs)
      | Some File \<Rightarrow> Inl Filesystem_error
      | None \<Rightarrow>
          (case put p (Dir Readable []) fs of
             None \<Rightarrow> Inl Filesystem_error
           | Some fs' \<Rightarrow> Inr (True, fs')))"

text \<open>\<^verbatim>\<open>fs::remove_all\<close> empties a directory entry by entry and then removes it. \<open>prune\<close>
  is that walk on one node: \<open>None\<close> when the node is gone, otherwise what is left of it when
  the walk stopped at a directory it could not enumerate.\<close>

fun prune :: "node \<Rightarrow> node option"
  and prune_entries :: "(name \<times> node) list \<Rightarrow> (name \<times> node) list" where
  "prune File = None"
| "prune (Dir Readable es) =
     (case prune_entries es of [] \<Rightarrow> None | e # es' \<Rightarrow> Some (Dir Readable (e # es')))"
| "prune (Dir Denied es) = (if es = [] then None else Some (Dir Denied es))"
| "prune (Dir (Faulty k) es) = Some (Dir (Faulty k) es)"
| "prune_entries [] = []"
| "prune_entries (e # es) =
     (case prune (snd e) of None \<Rightarrow> prune_entries es | Some c \<Rightarrow> (fst e, c) # es)"

text \<open>\<open>emptied nd\<close> is a directory after all its entries have been removed, and
  \<open>weight nd\<close> the number of files and directories in \<open>nd\<close>, which
  \<^verbatim>\<open>remove_all\<close> returns.\<close>

fun emptied :: "node \<Rightarrow> node" where
  "emptied File = File"
| "emptied (Dir a es) = Dir a []"

fun weight :: "node \<Rightarrow> nat" where
  "weight File = 1"
| "weight (Dir a es) = Suc (sum_list (map (\<lambda>e. weight (snd e)) es))"

definition remove_all :: "path \<Rightarrow> node \<Rightarrow> (filesystem_error + nat) \<times> node" where
  "remove_all p fs =
     (case lookup p fs of
        None \<Rightarrow> (Inr 0, fs)
      | Some nd \<Rightarrow>
          (case prune nd of
             Some nd' \<Rightarrow> (Inl Filesystem_error, graft p nd' fs)
           | None \<Rightarrow>
               (case del p fs of
                  None \<Rightarrow> (Inl Filesystem_error, graft p (emptied nd) fs)
                | Some fs' \<Rightarrow> (Inr (weight nd), fs'))))"

text \<open>\<^verbatim>\<open>fs::rename\<close>: the POSIX rules. A directory does not replace a file, a file does
  not replace a directory, and only an empty directory is replaced.\<close>

definition fs_rename :: "path \<Rightarrow> path \<Rightarrow> node \<Rightarrow> filesystem_error + node" where
  "fs_rename old new fs =
     (case lookup old fs of
        None \<Rightarrow> Inl Filesystem_error
      | Some src \<Rightarrow>
          if old = new then Inr fs
          else if (case lookup new fs of
                     None \<Rightarrow> False
                   | Some File \<Rightarrow> src \<noteq> File
                   | Some (Dir a es) \<Rightarrow> src = File \<or> es \<noteq> [])
          then Inl Filesystem_error
          else (case del old fs of
                  None \<Rightarrow> Inl Filesystem_error
                | Some fs1 \<Rightarrow>
                    (case put new src fs1 of
                       None \<Rightarrow> Inl Filesystem_error
                     | Some fs2 \<Rightarrow> Inr fs2)))"

text \<open>Directory iteration. Both iterators are modelled by what a range-based \<^verbatim>\<open>for\<close>
  loop over them sees: the entries delivered, in order, and whether the iteration ended
  normally (\<open>True\<close>) or by throwing \<^verbatim>\<open>filesystem_error\<close> (\<open>False\<close>). The path of an
  entry is the iterated path extended by the entry's name.\<close>

definition directory_iterator :: "path \<Rightarrow> node \<Rightarrow> path list \<times> bool" where
  "directory_iterator p fs =
     (case lookup p fs of
        Some (Dir Readable es) \<Rightarrow> (map (\<lambda>e. p @ [fst e]) es, True)
      | Some (Dir Denied es) \<Rightarrow> ([], False)
      | Some (Dir (Faulty k) es) \<Rightarrow> (map (\<lambda>e. p @ [fst e]) (take k es), False)
      | _ \<Rightarrow> ([], False))"

text \<open>The recursive iterator delivers an entry and then, if it is a directory, steps into
  it before going on with its siblings. \<open>skip\<close> is the option
  \<^verbatim>\<open>directory_options::skip_permission_denied\<close>: with it a directory that refuses to be
  opened is passed over, without it the refusal is an error. \<open>lim\<close> counts the entries a
  faulty directory still delivers.\<close>

fun deliver :: "bool \<Rightarrow> path \<Rightarrow> nat option \<Rightarrow> (name \<times> node) list \<Rightarrow> path list \<times> bool"
  and step_into :: "bool \<Rightarrow> path \<Rightarrow> node \<Rightarrow> path list \<times> bool" where
  "deliver skip p lim [] = ([], lim = None)"
| "deliver skip p lim (e # es) =
     (if lim = Some 0 then ([], False)
      else (let inner = step_into skip (p @ [fst e]) (snd e) in
            if snd inner
            then (let rest = deliver skip p (map_option (\<lambda>k. k - 1) lim) es
                  in ((p @ [fst e]) # fst inner @ fst rest, snd rest))
            else ((p @ [fst e]) # fst inner, False)))"
| "step_into skip p File = ([], True)"
| "step_into skip p (Dir Readable es) = deliver skip p None es"
| "step_into skip p (Dir Denied es) = ([], skip)"
| "step_into skip p (Dir (Faulty k) es) = deliver skip p (Some k) es"

definition recursive_directory_iterator :: "bool \<Rightarrow> path \<Rightarrow> node \<Rightarrow> path list \<times> bool" where
  "recursive_directory_iterator skip p fs =
     (case lookup p fs of Some (Dir a es) \<Rightarrow> step_into skip p (Dir a es) | _ \<Rightarrow> ([], False))"


section \<open>The facade returning status codes (\<^verbatim>\<open>BaseFileManager.cpp\<close>)\<close>

text \<open>Each operation takes the filesystem and returns the status code with the new
  filesystem, or with the caller's output vector for the two operations that fill one. The
  \<^verbatim>\<open>catch\<close> clause of an operation is the branch taken when a library call reports
  \<open>Filesystem_error\<close>. Text written to the error stream is not modelled.\<close>

text \<open>\<^verbatim>\<open>std::string::find\<close> from position 0; \<open>None\<close> is \<^verbatim>\<open>npos\<close>.\<close>

fun string_find :: "string \<Rightarrow> string \<Rightarrow> nat option" where
  "string_find [] pat = (if pat = [] then Some 0 else None)"
| "string_find (c # s) pat =
     (if prefix pat (c # s) then Some 0 else map_option Suc (string_find s pat))"

definition filename :: "path \<Rightarrow> name" where
  "filename p = (if p = [] then [] else last p)"

definition listDirectoryContents :: "path \<Rightarrow> path list \<Rightarrow> node \<Rightarrow> int \<times> path list" where
  "listDirectoryContents path contents fs =
     (if \<not> exists path fs then (404, contents)
      else if \<not> is_directory path fs then (400, contents)
      else (case directory_iterator path fs of
              (entries, ok) \<Rightarrow> (if ok then 200 else 500, contents @ entries)))"

definition createFile :: "path \<Rightarrow> node \<Rightarrow> int \<times> node" where
  "createFile path fs =
     (case ofstream path fs of None \<Rightarrow> (500, fs) | Some fs' \<Rightarrow> (200, fs'))"

definition deleteFile :: "path \<Rightarrow> node \<Rightarrow> int \<times> node" where
  "deleteFile path fs =
     (if \<not> exists path fs then (404, fs)
      else if \<not> is_regular_file path fs then (400, fs)
      else (case fs_remove path fs of
              Inl e \<Rightarrow> (500, fs)
            | Inr (removed, fs') \<Rightarrow> (200, fs')))"

definition createDirectory :: "path \<Rightarrow> node \<Rightarrow> int \<times> node" where
  "createDirectory path fs =
     (if exists path fs then (400, fs)
      else (case create_directory path fs of
              Inl e \<Rightarrow> (500, fs)
            | Inr (created, fs') \<Rightarrow> (200, fs')))"

definition deleteDirectory :: "path \<Rightarrow> node \<Rightarrow> int \<times> node" where
  "deleteDirectory path fs =
     (if \<not> exists path fs then (404, fs)
      else if \<not> is_directory path fs then (400, fs)
      else (case remove_all path fs of
              (Inl e, fs') \<Rightarrow> (500, fs')
            | (Inr n, fs') \<Rightarrow> (200, fs')))"

definition rename :: "path \<Rightarrow> path \<Rightarrow> node \<Rightarrow> int \<times> node" where
  "rename oldPath newPath fs =
     (if \<not> exists oldPath fs then (404, fs)
      else (case fs_rename oldPath newPath fs of
              Inl e \<Rightarrow> (500, fs)
            | Inr fs' \<Rightarrow> (200, fs')))"

definition searchFiles :: "path \<Rightarrow> string \<Rightarrow> path list \<Rightarrow> node \<Rightarrow> int \<times> path list" where
  "searchFiles path pattern results fs =
     (if \<not> exists path fs then (404, results)
      else if \<not> is_directory path fs then (400, results)
      else (case recursive_directory_iterator True path fs of
              (entries, ok) \<Rightarrow>
                (let results' =
                       results @ filter (\<lambda>e. string_find (filename e) pattern \<noteq> None) entries
                 in if ok then (if results' = [] then 204 else 200, results')
                    else (500, results'))))"

section \<open>The facade printing directly (\<^verbatim>\<open>FileManager.cpp\<close>)\<close>












section \<open>The console controller (\<^verbatim>\<open>FileManagerUI.cpp\<close>)\<close>

subsection \<open>Console streams\<close>

text \<open>The state the controller works on: the characters still to come on \<^verbatim>\<open>cin\<close> and
  whether the stream is still good (neither \<^verbatim>\<open>eofbit\<close> nor \<^verbatim>\<open>failbit\<close> set; the program
  never clears them), the text written to \<^verbatim>\<open>cout\<close>, the filesystem, and a log of the calls
  issued to the facade and to \<^verbatim>\<open>system\<close>.\<close>

datatype call =
    CreateFile string | DeleteFile string | CreateDirectory string | DeleteDirectory string
  | ListDirectoryContents string | Rename string string | SearchFiles string string
  | System string

record ui_state =
  cin_buf :: string
  cin_good :: bool
  cout :: string
  disk :: node
  calls :: "call list"

definition nl :: char where
  "nl = CHR 0x0A"

definition isspace :: "char \<Rightarrow> bool" where
  "isspace c = (c \<in> set [CHR 0x20, CHR 0x09, CHR 0x0A, CHR 0x0B, CHR 0x0C, CHR 0x0D])"

definition print :: "string \<Rightarrow> ui_state \<Rightarrow> ui_state" where
  "print s st = st\<lparr>cout := cout st @ s\<rparr>"

text \<open>\<^verbatim>\<open>getline(cin, str)\<close>: on a stream that is not good the string keeps its old value;
  otherwise the string is the text up to the next newline, which is consumed. Reaching the
  end of the input ends the good state.\<close>

definition getline :: "string \<Rightarrow> ui_state \<Rightarrow> string \<times> ui_state" where
  "getline old st =
     (if \<not> cin_good st then (old, st)
      else (case dropWhile (\<lambda>c. c \<noteq> nl) (cin_buf st) of
              [] \<Rightarrow> (cin_buf st, st\<lparr>cin_buf := [], cin_good := False\<rparr>)
            | c # rest \<Rightarrow> (takeWhile (\<lambda>c. c \<noteq> nl) (cin_buf st), st\<lparr>cin_buf := rest\<rparr>)))"

text \<open>\<^verbatim>\<open>cin >> confirm\<close> for a \<^verbatim>\<open>char\<close>: skips white space, then takes one character.
  \<open>None\<close> says that nothing was stored, so the variable, which the program does not
  initialise, still has no value.\<close>

definition extract_char :: "ui_state \<Rightarrow> char option \<times> ui_state" where
  "extract_char st =
     (if \<not> cin_good st then (None, st)
      else (case dropWhile isspace (cin_buf st) of
              [] \<Rightarrow> (None, st\<lparr>cin_buf := [], cin_good := False\<rparr>)
            | c # rest \<Rightarrow> (Some c, st\<lparr>cin_buf := rest\<rparr>)))"

text \<open>\<^verbatim>\<open>cin.ignore()\<close>: discards one character.\<close>

definition ignore :: "ui_state \<Rightarrow> ui_state" where
  "ignore st =
     (if \<not> cin_good st then st
      else (case cin_buf st of
              [] \<Rightarrow> st\<lparr>cin_good := False\<rparr>
            | c # rest \<Rightarrow> st\<lparr>cin_buf := rest\<rparr>))"

subsection \<open>Text and numbers\<close>

text \<open>A path typed at the console is cut into components at \<^verbatim>\<open>/\<close>; a path made of
  separators only is the root.\<close>

fun split_on :: "char \<Rightarrow> string \<Rightarrow> string list" where
  "split_on d [] = [[]]"
| "split_on d (c # cs) =
     (if c = d then [] # split_on d cs
      else (case split_on d cs of [] \<Rightarrow> [[c]] | w # ws \<Rightarrow> (c # w) # ws))"

definition path_of :: "string \<Rightarrow> path" where
  "path_of s =
     (let cs = filter (\<lambda>w. w \<noteq> []) (split_on (CHR ''/'') s)
      in if cs = [] \<and> s \<noteq> [] then [''.''] else cs)"

fun path_string :: "path \<Rightarrow> string" where
  "path_string [] = []"
| "path_string [n] = n"
| "path_string (n # m # p) = n @ ''/'' @ path_string (m # p)"

definition digit_of :: "char \<Rightarrow> nat option" where
  "digit_of = map_of
     [(CHR ''0'', 0), (CHR ''1'', 1), (CHR ''2'', 2), (CHR ''3'', 3), (CHR ''4'', 4),
      (CHR ''5'', 5), (CHR ''6'', 6), (CHR ''7'', 7), (CHR ''8'', 8), (CHR ''9'', 9)]"

definition digit_char :: "nat \<Rightarrow> char" where
  "digit_char d = ''0123456789'' ! (d mod 10)"

fun show_nat :: "nat \<Rightarrow> string" where
  "show_nat n = (if n < 10 then [digit_char n] else show_nat (n div 10) @ [digit_char n])"

definition show_int :: "int \<Rightarrow> string" where
  "show_int i = (if i < 0 then CHR ''-'' # show_nat (nat (- i)) else show_nat (nat i))"

text \<open>\<^verbatim>\<open>std::stoi\<close>: white space, an optional sign, then decimal digits; what follows the
  digits is ignored. No digit at all is \<^verbatim>\<open>std::invalid_argument\<close>, a value outside
  \<^verbatim>\<open>int\<close> is \<^verbatim>\<open>std::out_of_range\<close>.\<close>

datatype exception = Invalid_argument | Out_of_range

definition decimal :: "string \<Rightarrow> int" where
  "decimal ds =
     foldl (\<lambda>a c. 10 * a + (case digit_of c of None \<Rightarrow> 0 | Some d \<Rightarrow> int d)) 0 ds"

definition stoi :: "string \<Rightarrow> exception + int" where
  "stoi s =
     (let s1 = dropWhile isspace s;
          negative = (s1 \<noteq> [] \<and> hd s1 = CHR ''-'');
          s2 = (if s1 \<noteq> [] \<and> (hd s1 = CHR ''-'' \<or> hd s1 = CHR ''+'') then tl s1 else s1);
          ds = takeWhile (\<lambda>c. digit_of c \<noteq> None) s2;
          v = (if negative then - decimal ds else decimal ds)
      in if ds = [] then Inl Invalid_argument
         else if v < - 2147483648 \<or> 2147483647 < v then Inl Out_of_range
         else Inr v)"

subsection \<open>Command handlers\<close>

text \<open>A handler returns, or ends in an exception that nothing catches, or compares a
  \<^verbatim>\<open>char\<close> that was never given a value, which has no defined behaviour.\<close>

datatype result = Returns ui_state | Throws exception ui_state | Undefined

definition handleStatus :: "int \<Rightarrow> ui_state \<Rightarrow> ui_state" where
  "handleStatus statusCode st =
     (if statusCode = 200 then print (nl # ''Operation successful.'' @ [nl]) st
      else if statusCode = 204
        then print (nl # ''No files found matching the criteria.'' @ [nl]) st
      else if statusCode = 400
        then print (nl # ''Error: Invalid path or resource already exists.'' @ [nl]) st
      else if statusCode = 404
        then print (nl # ''Error: File or directory not found.'' @ [nl]) st
      else if statusCode = 500
        then print (nl # ''Error: System error occurred. Please check your input or permissions.''
                      @ [nl]) st
      else print (nl # ''Unknown status code: '' @ show_int statusCode @ [nl]) st)"

definition ui_createFile :: "ui_state \<Rightarrow> result" where
  "ui_createFile st =
     (case getline [] (print (nl # ''Enter file path: '') st) of
        (path, st1) \<Rightarrow>
          (case createFile (path_of path) (disk st1) of
             (statusCode, fs') \<Rightarrow>
               Returns (handleStatus statusCode
                          (st1\<lparr>disk := fs', calls := calls st1 @ [CreateFile path]\<rparr>))))"

definition ui_deleteFile :: "ui_state \<Rightarrow> result" where
  "ui_deleteFile st =
     (case getline [] (print (nl # ''Enter file path: '') st) of
        (path, st1) \<Rightarrow>
          (case extract_char
                  (print (nl # ''Are you sure you want to delete this file? (y/n): '') st1) of
             (confirm, st2) \<Rightarrow>
               (let st3 = ignore st2 in
                case confirm of
                  None \<Rightarrow> Undefined
                | Some c \<Rightarrow>
                    if c = CHR ''y'' \<or> c = CHR ''Y''
                    then (case deleteFile (path_of path) (disk st3) of
                            (statusCode, fs') \<Rightarrow>
                              Returns (handleStatus statusCode
                                         (st3\<lparr>disk := fs',
                                              calls := calls st3 @ [DeleteFile path]\<rparr>)))
                    else Returns (print (nl # ''Operation canceled.'' @ [nl]) st3))))"

definition ui_createDirectory :: "ui_state \<Rightarrow> result" where
  "ui_createDirectory st =
     (case getline [] (print (nl # ''Enter directory path: '') st) of
        (path, st1) \<Rightarrow>
          (case createDirectory (path_of path) (disk st1) of
             (statusCode, fs') \<Rightarrow>
               Returns (handleStatus statusCode
                          (st1\<lparr>disk := fs', calls := calls st1 @ [CreateDirectory path]\<rparr>))))"

definition ui_deleteDirectory :: "ui_state \<Rightarrow> result" where
  "ui_deleteDirectory st =
     (case getline [] (print (nl # ''Enter directory path: '') st) of
        (path, st1) \<Rightarrow>
          (case extract_char
                  (print (nl # ''Are you sure you want to delete this directory? (y/n): '')
                     st1) of
             (confirm, st2) \<Rightarrow>
               (let st3 = ignore st2 in
                case confirm of
                  None \<Rightarrow> Undefined
                | Some c \<Rightarrow>
                    if c = CHR ''y'' \<or> c = CHR ''Y''
                    then (case deleteDirectory (path_of path) (disk st3) of
                            (statusCode, fs') \<Rightarrow>
                              Returns (handleStatus statusCode
                                         (st3\<lparr>disk := fs',
                                              calls := calls st3 @ [DeleteDirectory path]\<rparr>)))
                    else Returns (print (nl # ''Operation canceled.'' @ [nl]) st3))))"

definition print_items :: "path list \<Rightarrow> ui_state \<Rightarrow> ui_state" where
  "print_items items st = foldl (\<lambda>s item. print (''- '' @ path_string item @ [nl]) s) st items"

definition ui_listDirectoryContents :: "ui_state \<Rightarrow> result" where
  "ui_listDirectoryContents st =
     (case getline [] (print (nl # ''Enter directory path: '') st) of
        (path, st1) \<Rightarrow>
          (case listDirectoryContents (path_of path) [] (disk st1) of
             (statusCode, contents) \<Rightarrow>
               (let st2 = handleStatus statusCode
                            (st1\<lparr>calls := calls st1 @ [ListDirectoryContents path]\<rparr>)
                in if statusCode = 200
                   then Returns (print_items contents
                                   (print (nl # ''Directory Contents:'' @ [nl]) st2))
                   else Returns st2)))"

definition ui_renameItem :: "ui_state \<Rightarrow> result" where
  "ui_renameItem st =
     (case getline [] (print (nl # ''Enter current file/directory path: '') st) of
        (oldPath, st1) \<Rightarrow>
          (case getline [] (print ''Enter new name for the file/directory: '' st1) of
             (newPath, st2) \<Rightarrow>
               (case rename (path_of oldPath) (path_of newPath) (disk st2) of
                  (statusCode, fs') \<Rightarrow>
                    Returns (handleStatus statusCode
                               (st2\<lparr>disk := fs',
                                    calls := calls st2 @ [Rename oldPath newPath]\<rparr>)))))"

definition ui_searchFiles :: "ui_state \<Rightarrow> result" where
  "ui_searchFiles st =
     (case getline [] (print (nl # ''Enter directory path to search: '') st) of
        (path, st1) \<Rightarrow>
          (case getline [] (print ''Enter filename pattern to search for: '' st1) of
             (pattern, st2) \<Rightarrow>
               (case searchFiles (path_of path) pattern [] (disk st2) of
                  (statusCode, results) \<Rightarrow>
                    (let st3 = handleStatus statusCode
                                 (st2\<lparr>calls := calls st2 @ [SearchFiles path pattern]\<rparr>)
                     in if statusCode = 200
                        then Returns (print_items results
                                        (print (nl # ''Search Results:'' @ [nl]) st3))
                        else Returns st3))))"

text \<open>\<^verbatim>\<open>system("cls")\<close> or \<^verbatim>\<open>system("clear")\<close>, by platform; the log records the
  latter.\<close>

definition clearConsoleWithConfirmation :: "ui_state \<Rightarrow> result" where
  "clearConsoleWithConfirmation st =
     (case extract_char
             (print (nl # ''Are you sure you want to clear the console? (y/n): '') st) of
        (confirm, st1) \<Rightarrow>
          (let st2 = ignore st1 in
           case confirm of
             None \<Rightarrow> Undefined
           | Some c \<Rightarrow>
               if c = CHR ''y'' \<or> c = CHR ''Y''
               then Returns (print (nl # ''Console cleared.'' @ [nl])
                               (st2\<lparr>calls := calls st2 @ [System ''clear'']\<rparr>))
               else Returns (print (nl # ''Operation canceled.'' @ [nl]) st2)))"

definition processCommand :: "string \<Rightarrow> ui_state \<Rightarrow> result" where
  "processCommand command st =
     (case stoi command of
        Inl e \<Rightarrow> Throws e st
      | Inr k \<Rightarrow>
          if k = 1 then ui_createFile st
          else if k = 2 then ui_deleteFile st
          else if k = 3 then ui_createDirectory st
          else if k = 4 then ui_deleteDirectory st
          else if k = 5 then ui_listDirectoryContents st
          else if k = 6 then ui_renameItem st
          else if k = 7 then ui_searchFiles st
          else if k = 8 then clearConsoleWithConfirmation st
          else if k = 9 then Returns st
          else Returns (print (nl # ''Unknown command. Please try again.'' @ [nl]) st))"

subsection \<open>The loop of \<^verbatim>\<open>start\<close>\<close>

definition menu :: string where
  "menu = nl # ''=== File Manager ==='' @ nl # ''1. Create File'' @ nl # ''2. Delete File''
     @ nl # ''3. Create Directory'' @ nl # ''4. Delete Directory''
     @ nl # ''5. List Directory Contents'' @ nl # ''6. Rename File/Directory''
     @ nl # ''7. Search Files'' @ nl # ''8. Clear Console'' @ nl # ''9. Exit'' @ nl
     # nl # ''Enter command: ''"

datatype step = Continue ui_state | Break ui_state | Abort exception ui_state | Unpredictable

text \<open>\<open>dispatch\<close> is the body of the loop after the command line has been read;
  \<open>iteration\<close> is the whole body. The variable \<^verbatim>\<open>command\<close> lives outside the loop, so
  its value is passed from one iteration to the next.\<close>

definition dispatch :: "string \<Rightarrow> ui_state \<Rightarrow> step" where
  "dispatch command st =
     (if command = ''9''
      then (case extract_char (print (nl # ''Are you sure you want to exit? (y/n): '') st) of
              (confirm, st1) \<Rightarrow>
                (let st2 = ignore st1 in
                 case confirm of
                   None \<Rightarrow> Unpredictable
                 | Some c \<Rightarrow>
                     if c = CHR ''y'' \<or> c = CHR ''Y''
                     then Break (print (nl # ''Goodbye!'' @ [nl]) st2)
                     else Continue st2))
      else (case processCommand command st of
              Returns st' \<Rightarrow> Continue st'
            | Throws e st' \<Rightarrow> Abort e st'
            | Undefined \<Rightarrow> Unpredictable))"

definition iteration :: "string \<Rightarrow> ui_state \<Rightarrow> string \<times> step" where
  "iteration command st =
     (case getline command (print menu st) of
        (command', st1) \<Rightarrow> (command', dispatch command' st1))"

text \<open>The loop may run for ever (at the end of the input every read fails and the last
  command is repeated), so \<open>start\<close> is a partial function: \<open>None\<close> is a run that never
  ends.\<close>

partial_function (option) loop :: "string \<Rightarrow> ui_state \<Rightarrow> result option" where
  [code]: "loop command st =
     (case iteration command st of
        (command', Continue st') \<Rightarrow> loop command' st'
      | (command', Break st') \<Rightarrow> Some (Returns st')
      | (command', Abort e st') \<Rightarrow> Some (Throws e st')
      | (command', Unpredictable) \<Rightarrow> Some Undefined)"

definition start :: "ui_state \<Rightarrow> result option" where
  "start st = loop [] st"

section \<open>What a search is expected to find\<close>

text \<open>\<open>reach nd q\<close>: the relative path \<open>q\<close> leads from the directory \<open>nd\<close> to an entry,
  and every directory on the way, \<open>nd\<close> included, can be enumerated.\<close>

inductive reach :: "node \<Rightarrow> path \<Rightarrow> bool" where
  entry: "(n, c) \<in> set es \<Longrightarrow> reach (Dir Readable es) [n]"
| below: "(n, c) \<in> set es \<Longrightarrow> reach c q \<Longrightarrow> reach (Dir Readable es) (n # q)"

text \<open>\<open>intact skip nd\<close>: a recursive walk of \<open>nd\<close> meets no directory whose enumeration
  reports an error; a directory that refuses to be opened counts as one unless \<open>skip\<close>
  is set.\<close>

fun intact :: "bool \<Rightarrow> node \<Rightarrow> bool" where
  "intact skip File = True"
| "intact skip (Dir Readable es) = (\<forall>e \<in> set es. intact skip (snd e))"
| "intact skip (Dir Denied es) = skip"
| "intact skip (Dir (Faulty k) es) = False"

text \<open>\<open>well_formed nd\<close>: in every directory of \<open>nd\<close> the names are distinct and none of
  them is \<^verbatim>\<open>.\<close>, as in a real directory listing.\<close>

fun well_formed :: "node \<Rightarrow> bool" where
  "well_formed File = True"
| "well_formed (Dir a es) =
     (distinct (map fst es) \<and> ''.'' \<notin> fst ` set es \<and> (\<forall>e \<in> set es. well_formed (snd e)))"

text \<open>The parent of a path, as the round trip property of the specification uses it:
  the path without its last component.\<close>

definition parent_path :: "path \<Rightarrow> path" where
  "parent_path p = butlast p"

section \<open>Example filesystems\<close>

text \<open>The scenario of the specification: a directory \<^verbatim>\<open>t\<close> with \<^verbatim>\<open>a.txt\<close>,
  \<^verbatim>\<open>b.log\<close> and \<^verbatim>\<open>sub/c.txt\<close>, and beside them a directory the process may not
  open.\<close>

definition scenario :: node where
  "scenario =
     Dir Readable
       [(''t'', Dir Readable
                 [(''a.txt'', File), (''b.log'', File),
                  (''sub'', Dir Readable [(''c.txt'', File)]),
                  (''locked'', Dir Denied [(''d.txt'', File)])])]"

text \<open>A directory whose enumeration breaks off after two entries, the second of which is
  a directory that cannot be enumerated at all.\<close>

definition interrupted :: node where
  "interrupted =
     Dir Readable
       [(''t'', Dir (Faulty 2)
                 [(''a.txt'', File),
                  (''sub'', Dir (Faulty 0) [(''c.txt'', File)]),
                  (''z.txt'', File)])]"

text \<open>The scenario again, with a subdirectory whose enumeration fails at once.\<close>

definition failing_below :: node where
  "failing_below =
     Dir Readable
       [(''t'', Dir Readable
                 [(''a.txt'', File), (''b.log'', File),
                  (''sub'', Dir (Faulty 0) [(''c.txt'', File)])])]"

text \<open>A directory that accepts new entries but may not be enumerated.\<close>

definition write_only :: node where
  "write_only = Dir Readable [(''box'', Dir Denied [])]"


text \<open>A console session that starts on the scenario with the given input.\<close>

definition session :: "string \<Rightarrow> ui_state" where
  "session input = \<lparr>cin_buf = input, cin_good = True, cout = [], disk = scenario, calls = []\<rparr>"

section \<open>Absent and present paths\<close>





section \<open>Recursive search\<close>

subsection \<open>What the recursive iterator delivers\<close>

lemma iterator_ok:
  "snd (deliver skip p lim es) = (lim = None \<and> (\<forall>e \<in> set es. intact skip (snd e)))"
  "snd (step_into skip p nd) = intact skip nd"
  by (induction skip p lim es and skip p nd rule: deliver_step_into.induct)
     (auto simp: Let_def)

lemma reach_nonempty: "reach nd q \<Longrightarrow> q \<noteq> []"
  by (induction rule: reach.induct) auto

lemma reach_Dir:
  "reach (Dir a es) q \<longleftrightarrow>
     a = Readable \<and> (\<exists>n c. (n, c) \<in> set es \<and> (q = [n] \<or> (\<exists>r. q = n # r \<and> reach c r)))"
  by (subst reach.simps) auto

lemma reach_File: "\<not> reach File q"
  by (subst reach.simps) auto

lemma reach_Cons:
  "reach (Dir Readable (e # es)) q \<longleftrightarrow>
     q = [fst e] \<or> (\<exists>r. q = fst e # r \<and> reach (snd e) r) \<or> reach (Dir Readable es) q"
  by (cases e) (auto simp: reach_Dir)

lemma iterator_entries:
  "lim = None \<Longrightarrow> \<forall>e \<in> set es. intact skip (snd e) \<Longrightarrow>
     set (fst (deliver skip p lim es)) = (\<lambda>q. p @ q) ` {q. reach (Dir Readable es) q}"
  "intact skip nd \<Longrightarrow> set (fst (step_into skip p nd)) = (\<lambda>q. p @ q) ` {q. reach nd q}"
proof (induction skip p lim es and skip p nd rule: deliver_step_into.induct)
  case (2 skip p lim e es)
  have inner: "set (fst (step_into skip (p @ [fst e]) (snd e)))
                 = (\<lambda>q. (p @ [fst e]) @ q) ` {q. reach (snd e) q}"
    using 2 by simp
  have rest: "set (fst (deliver skip p None es)) = (\<lambda>q. p @ q) ` {q. reach (Dir Readable es) q}"
    using 2 by (simp add: iterator_ok)
  have ok: "snd (step_into skip (p @ [fst e]) (snd e))"
    using "2.prems" by (simp add: iterator_ok)
  show ?case
    using "2.prems"(1)
    by (simp add: Let_def ok inner rest reach_Cons) (auto simp: image_iff)
qed (auto simp: reach_File reach_Dir)

subsection \<open>Matching file names\<close>

lemma string_find_Some: "(\<exists>i. string_find s pat = Some i) \<longleftrightarrow> sublist pat s"
  by (induction s) (auto simp: sublist_Cons_right)

lemma string_find_sublist: "string_find s pat \<noteq> None \<longleftrightarrow> sublist pat s"
  using string_find_Some [of s pat] by simp

lemma string_find_empty: "string_find x [] = Some 0"
  by (cases x) simp_all

subsection \<open>The search operation\<close>

lemma searchFiles_on_directory:
  assumes "lookup D fs = Some (Dir a es)"
  shows "searchFiles D s results fs =
           (let found = results @ filter (\<lambda>e. string_find (filename e) s \<noteq> None)
                                    (fst (step_into True D (Dir a es)))
            in if intact True (Dir a es) then (if found = [] then 204 else 200, found)
               else (500, found))"
  using assms
  by (simp add: searchFiles_def exists_def is_directory_def recursive_directory_iterator_def
        iterator_ok Let_def case_prod_beta)

text \<open>
  Claim C3, as the code has it. For every existing directory \<open>D\<close> and every substring
  \<open>s\<close>, \<open>search D s\<close> (the operation called with an empty result vector, as the
  controller calls it) walks \<open>D\<close> and its subdirectories recursively and passes over the
  directories the process is refused to open. If no directory on the walk reports another
  error, it collects exactly the entries whose file name contains \<open>s\<close> as a literal
  substring, compared character by character, and returns 204 if that collection is empty
  and 200 otherwise. If a directory on the walk does report such an error, the operation
  returns 500 instead.
\<close>

theorem search_collects_matches:
  assumes "lookup D fs = Some (Dir a es)"
  shows "if intact True (Dir a es)
         then set (snd (searchFiles D s [] fs))
                = {D @ q |q. reach (Dir a es) q \<and> sublist s (filename (D @ q))}
              \<and> fst (searchFiles D s [] fs)
                = (if snd (searchFiles D s [] fs) = [] then 204 else 200)
         else fst (searchFiles D s [] fs) = 500"
proof (cases "intact True (Dir a es)")
  case True
  have "set (fst (step_into True D (Dir a es))) = (\<lambda>q. D @ q) ` {q. reach (Dir a es) q}"
    using True by (rule iterator_entries(2))
  then show ?thesis
    using True by (auto simp: searchFiles_on_directory [OF assms] Let_def string_find_Some)
next
  case False
  then show ?thesis
    by (simp add: searchFiles_on_directory [OF assms] Let_def)
qed

theorem search_collects_matches_witness:
  "lookup [''t''] scenario
     = Some (Dir Readable [(''a.txt'', File), (''b.log'', File),
                           (''sub'', Dir Readable [(''c.txt'', File)]),
                           (''locked'', Dir Denied [(''d.txt'', File)])])
   \<and> set (snd (searchFiles [''t''] ''.txt'' [] scenario))
       = {[''t''] @ q |q.
            reach (Dir Readable [(''a.txt'', File), (''b.log'', File),
                                 (''sub'', Dir Readable [(''c.txt'', File)]),
                                 (''locked'', Dir Denied [(''d.txt'', File)])]) q
            \<and> sublist ''.txt'' (filename ([''t''] @ q))}
   \<and> searchFiles [''t''] ''.txt'' [] scenario
       = (200, [[''t'', ''a.txt''], [''t'', ''sub'', ''c.txt'']])"
proof -
  have dir: "lookup [''t''] scenario
     = Some (Dir Readable [(''a.txt'', File), (''b.log'', File),
                           (''sub'', Dir Readable [(''c.txt'', File)]),
                           (''locked'', Dir Denied [(''d.txt'', File)])])"
    by (simp add: lookup_def scenario_def)
  have run: "searchFiles [''t''] ''.txt'' [] scenario
       = (200, [[''t'', ''a.txt''], [''t'', ''sub'', ''c.txt'']])"
    by (simp add: searchFiles_on_directory [OF dir] Let_def filename_def)
  show ?thesis
    using dir run search_collects_matches [OF dir, of "''.txt''"] by simp
qed

text \<open>The claim as first stated promises 204 or 200 for every existing directory. Here the
  walk meets a subdirectory whose enumeration fails: the answer is 500, with the one match
  found before.\<close>

theorem search_fails_on_faulty_directory:
  "exists [''t''] failing_below \<and> is_directory [''t''] failing_below
   \<and> searchFiles [''t''] ''.txt'' [] failing_below = (500, [[''t'', ''a.txt'']])"
  by (simp add: searchFiles_def exists_def is_directory_def lookup_def failing_below_def
        recursive_directory_iterator_def Let_def filename_def)

text \<open>
  Claim C4, as the code has it. For every existing directory \<open>D\<close> whose walk reports no
  error, \<open>search D ""\<close> returns every entry under \<open>D\<close> that is reached through
  directories the process can open, since every file name contains the empty substring; the
  status is 200 if there is at least one such entry and 204 if there is none, as for an
  empty directory. If the walk reports an error the status is 500.
\<close>

theorem search_empty_substring:
  assumes "lookup D fs = Some (Dir a es)"
  shows "if intact True (Dir a es)
         then set (snd (searchFiles D [] [] fs)) = {D @ q |q. reach (Dir a es) q}
              \<and> fst (searchFiles D [] [] fs) = (if a = Readable \<and> es \<noteq> [] then 200 else 204)
         else fst (searchFiles D [] [] fs) = 500"
proof (cases "intact True (Dir a es)")
  case True
  have entries: "set (fst (step_into True D (Dir a es))) = (\<lambda>q. D @ q) ` {q. reach (Dir a es) q}"
    using True by (rule iterator_entries(2))
  have "(\<exists>q. reach (Dir a es) q) \<longleftrightarrow> a = Readable \<and> es \<noteq> []"
  proof
    assume "\<exists>q. reach (Dir a es) q"
    then show "a = Readable \<and> es \<noteq> []" by (auto simp: reach_Dir)
  next
    assume "a = Readable \<and> es \<noteq> []"
    then obtain n c es' where "a = Readable" "es = (n, c) # es'"
      by (cases es) auto
    then have "reach (Dir a es) [n]" by (auto intro: reach.entry)
    then show "\<exists>q. reach (Dir a es) q" ..
  qed
  then have "fst (step_into True D (Dir a es)) = [] \<longleftrightarrow> \<not> (a = Readable \<and> es \<noteq> [])"
    using entries by (metis (no_types, lifting) Collect_empty_eq image_is_empty set_empty)
  then show ?thesis
    using True entries
    by (auto simp: searchFiles_on_directory [OF assms] Let_def string_find_empty)
next
  case False
  then show ?thesis
    by (simp add: searchFiles_on_directory [OF assms] Let_def)
qed

theorem search_empty_substring_witness:
  "lookup [''t''] scenario
     = Some (Dir Readable [(''a.txt'', File), (''b.log'', File),
                           (''sub'', Dir Readable [(''c.txt'', File)]),
                           (''locked'', Dir Denied [(''d.txt'', File)])])
   \<and> set (snd (searchFiles [''t''] [] [] scenario))
       = {[''t''] @ q |q.
            reach (Dir Readable [(''a.txt'', File), (''b.log'', File),
                                 (''sub'', Dir Readable [(''c.txt'', File)]),
                                 (''locked'', Dir Denied [(''d.txt'', File)])]) q}
   \<and> searchFiles [''t''] [] [] scenario
       = (200, [[''t'', ''a.txt''], [''t'', ''b.log''], [''t'', ''sub''],
                [''t'', ''sub'', ''c.txt''], [''t'', ''locked'']])"
proof -
  have dir: "lookup [''t''] scenario
     = Some (Dir Readable [(''a.txt'', File), (''b.log'', File),
                           (''sub'', Dir Readable [(''c.txt'', File)]),
                           (''locked'', Dir Denied [(''d.txt'', File)])])"
    by (simp add: lookup_def scenario_def)
  have run: "searchFiles [''t''] [] [] scenario
       = (200, [[''t'', ''a.txt''], [''t'', ''b.log''], [''t'', ''sub''],
                [''t'', ''sub'', ''c.txt''], [''t'', ''locked'']])"
    by (simp add: searchFiles_on_directory [OF dir] Let_def filename_def)
  show ?thesis
    using dir run search_empty_substring [OF dir] by simp
qed

text \<open>The claim as first stated promises 200 for every existing directory; for an empty
  one the result vector is empty and the status is 204.\<close>

theorem search_empty_directory:
  "exists [''t''] (Dir Readable [(''t'', Dir Readable [])])
   \<and> is_directory [''t''] (Dir Readable [(''t'', Dir Readable [])])
   \<and> searchFiles [''t''] [] [] (Dir Readable [(''t'', Dir Readable [])]) = (204, [])"
  by (simp add: searchFiles_def exists_def is_directory_def lookup_def
        recursive_directory_iterator_def Let_def)

subsection \<open>The entries of a walk are entries of the filesystem\<close>

text \<open>In a well-formed filesystem every path that \<open>reach\<close> admits below a directory
  \<open>D\<close> resolves, so what a search returns exists.\<close>

lemma walk_to_append:
  "walk_to (p @ q) nd = (case walk_to p nd of None \<Rightarrow> None | Some c \<Rightarrow> walk_to q c)"
  by (induction p arbitrary: nd) (auto split: node.splits option.splits)

lemma well_formed_walk_to:
  "well_formed nd \<Longrightarrow> walk_to p nd = Some c \<Longrightarrow> well_formed c"
proof (induction p arbitrary: nd)
  case Nil
  then show ?case by simp
next
  case (Cons n p)
  then obtain a es where nd: "nd = Dir a es"
    by (cases nd) auto
  show ?case
  proof (cases "n = ''.''")
    case True
    with Cons.prems nd have "walk_to p nd = Some c" by simp
    with Cons.prems(1) show ?thesis by (rule Cons.IH)
  next
    case False
    with Cons.prems nd obtain d where d: "map_of es n = Some d" "walk_to p d = Some c"
      by (auto split: option.splits)
    then have "(n, d) \<in> set es" by (auto dest: map_of_SomeD)
    with Cons.prems(1) nd have "well_formed d" by force
    with d show ?thesis by (auto intro: Cons.IH)
  qed
qed

lemma reach_resolves:
  "reach nd q \<Longrightarrow> well_formed nd \<Longrightarrow> \<exists>c. walk_to q nd = Some c"
proof (induction rule: reach.induct)
  case (entry n c es)
  then have "map_of es n = Some c" by simp
  moreover from entry have "n \<noteq> ''.''" by force
  ultimately show ?case by simp
next
  case (below n c es q)
  then have "map_of es n = Some c" by simp
  moreover from below have "n \<noteq> ''.''" by force
  moreover from below have "well_formed c" by force
  ultimately show ?case using below.IH by simp
qed

lemma found_entries_exist:
  assumes "well_formed fs" and "lookup D fs = Some (Dir a es)" and "reach (Dir a es) q"
  shows "exists (D @ q) fs"
proof -
  from assms(2) have at: "walk_to D fs = Some (Dir a es)"
    by (simp add: lookup_def split: if_splits)
  with assms(1) have "well_formed (Dir a es)"
    by (rule well_formed_walk_to)
  from reach_resolves [OF assms(3) this] at reach_nonempty [OF assms(3)] show ?thesis
    by (auto simp: exists_def lookup_def walk_to_append)
qed

section \<open>The output vector\<close>

text \<open>
  Claim C9. \<open>listDirectoryContents\<close> and \<open>searchFiles\<close> only append to the vector the
  caller supplies: what it held before the call is still there, in front, after it. When
  the status is 404 or 400 the vector is as it was. When the status is 500 the vector may
  have grown by the entries collected before the failure, as the last two equations show
  on a directory whose enumeration breaks off.
\<close>

theorem output_vector_is_only_appended_to:
  "prefix contents (snd (listDirectoryContents p contents fs))
   \<and> (fst (listDirectoryContents p contents fs) = 404
        \<or> fst (listDirectoryContents p contents fs) = 400
      \<longrightarrow> snd (listDirectoryContents p contents fs) = contents)
   \<and> prefix results (snd (searchFiles p s results fs))
   \<and> (fst (searchFiles p s results fs) = 404 \<or> fst (searchFiles p s results fs) = 400
      \<longrightarrow> snd (searchFiles p s results fs) = results)
   \<and> listDirectoryContents [''t''] [[''old'']] interrupted
       = (500, [[''old''], [''t'', ''a.txt''], [''t'', ''sub'']])
   \<and> searchFiles [''t''] ''.txt'' [[''old'']] interrupted = (500, [[''old''], [''t'', ''a.txt'']])"
proof -
  have l1: "prefix contents (snd (listDirectoryContents p contents fs))"
    by (simp add: listDirectoryContents_def case_prod_beta)
  have l2: "fst (listDirectoryContents p contents fs) = 404
        \<or> fst (listDirectoryContents p contents fs) = 400
      \<longrightarrow> snd (listDirectoryContents p contents fs) = contents"
    by (simp add: listDirectoryContents_def case_prod_beta)
  have s1: "prefix results (snd (searchFiles p s results fs))"
    by (simp add: searchFiles_def case_prod_beta Let_def)
  have s2: "fst (searchFiles p s results fs) = 404 \<or> fst (searchFiles p s results fs) = 400
      \<longrightarrow> snd (searchFiles p s results fs) = results"
    by (simp add: searchFiles_def case_prod_beta Let_def)
  have l3: "listDirectoryContents [''t''] [[''old'']] interrupted
       = (500, [[''old''], [''t'', ''a.txt''], [''t'', ''sub'']])"
    by (simp add: listDirectoryContents_def exists_def is_directory_def lookup_def
          directory_iterator_def interrupted_def)
  have s3: "searchFiles [''t''] ''.txt'' [[''old'']] interrupted
       = (500, [[''old''], [''t'', ''a.txt'']])"
    by (simp add: searchFiles_def exists_def is_directory_def lookup_def interrupted_def
        recursive_directory_iterator_def Let_def filename_def)
  from l1 l2 s1 s2 l3 s3 show ?thesis by blast
qed

theorem output_vector_is_only_appended_to_witness:
  "listDirectoryContents [''nowhere''] [[''old'']] interrupted = (404, [[''old'']])
   \<and> listDirectoryContents [''t'', ''a.txt''] [[''old'']] interrupted = (400, [[''old'']])
   \<and> searchFiles [''nowhere''] ''.txt'' [[''old'']] interrupted = (404, [[''old'']])
   \<and> searchFiles [''t'', ''a.txt''] ''.txt'' [[''old'']] interrupted = (400, [[''old'']])
   \<and> prefix [[''old'']] (snd (listDirectoryContents [''t''] [[''old'']] interrupted))
   \<and> prefix [[''old'']] (snd (searchFiles [''t''] ''.txt'' [[''old'']] interrupted))"
proof -
  have a: "fst (listDirectoryContents [''nowhere''] [[''old'']] interrupted) = 404"
    by (simp add: listDirectoryContents_def exists_def lookup_def interrupted_def)
  have b: "fst (listDirectoryContents [''t'', ''a.txt''] [[''old'']] interrupted) = 400"
    by (simp add: listDirectoryContents_def exists_def is_directory_def lookup_def interrupted_def)
  have c: "fst (searchFiles [''nowhere''] ''.txt'' [[''old'']] interrupted) = 404"
    by (simp add: searchFiles_def exists_def lookup_def interrupted_def)
  have d: "fst (searchFiles [''t'', ''a.txt''] ''.txt'' [[''old'']] interrupted) = 400"
    by (simp add: searchFiles_def exists_def is_directory_def lookup_def interrupted_def)
  show ?thesis
    using a b c d
      output_vector_is_only_appended_to [of "[[''old'']]" "[''nowhere'']" interrupted "[[''old'']]" "''.txt''"]
      output_vector_is_only_appended_to [of "[[''old'']]" "[''t'', ''a.txt'']" interrupted "[[''old'']]" "''.txt''"]
      output_vector_is_only_appended_to [of "[[''old'']]" "[''t'']" interrupted "[[''old'']]" "''.txt''"]
    by (metis prod.collapse)
qed

section \<open>Creating, listing and deleting a file\<close>

lemma put_is_Dir: "put p v nd = Some nd' \<Longrightarrow> \<exists>a es. nd' = Dir a es"
  by (induction p v nd arbitrary: nd' rule: put.induct)
     (auto split: node.splits if_splits option.splits)

lemma del_is_Dir: "del p nd = Some nd' \<Longrightarrow> \<exists>a es. nd' = Dir a es"
  by (induction p nd arbitrary: nd' rule: del.induct)
     (auto split: node.splits if_splits option.splits)

lemma put_parent:
  "put (D @ [n]) v nd = Some nd' \<Longrightarrow>
     n \<noteq> ''.'' \<and> (\<exists>a es. walk_to D nd = Some (Dir a es)
                       \<and> walk_to D nd' = Some (Dir a (AList.update n v es)))"
proof (induction D arbitrary: nd nd')
  case Nil
  then show ?case by (auto split: node.splits if_splits)
next
  case (Cons m D)
  then obtain a es where nd: "nd = Dir a es"
    by (cases nd) auto
  show ?case
  proof (cases "m = ''.''")
    case True
    with Cons.prems nd have "put (D @ [n]) v nd = Some nd'" by simp
    from Cons.IH [OF this] put_is_Dir [OF this] True nd show ?thesis by auto
  next
    case False
    with Cons.prems nd obtain c c' where
      c: "map_of es m = Some c" "put (D @ [n]) v c = Some c'" "nd' = Dir a (AList.update m c' es)"
      by (auto split: option.splits)
    from Cons.IH [OF c(2)] c False nd show ?thesis
      by (auto simp: update_conv')
  qed
qed

lemma del_parent:
  "del (D @ [n]) nd = Some nd' \<Longrightarrow>
     n \<noteq> ''.'' \<and> (\<exists>a es. walk_to D nd = Some (Dir a es)
                       \<and> walk_to D nd' = Some (Dir a (AList.delete n es)))"
proof (induction D arbitrary: nd nd')
  case Nil
  then show ?case by (auto split: node.splits if_splits)
next
  case (Cons m D)
  then obtain a es where nd: "nd = Dir a es"
    by (cases nd) auto
  show ?case
  proof (cases "m = ''.''")
    case True
    with Cons.prems nd have "del (D @ [n]) nd = Some nd'" by simp
    from Cons.IH [OF this] del_is_Dir [OF this] True nd show ?thesis by auto
  next
    case False
    with Cons.prems nd obtain c c' where
      c: "map_of es m = Some c" "del (D @ [n]) c = Some c'" "nd' = Dir a (AList.update m c' es)"
      by (auto split: option.splits)
    from Cons.IH [OF c(2)] c False nd show ?thesis
      by (auto simp: update_conv')
  qed
qed

lemma updated_name: "n \<in> fst ` set (AList.update n v es)"
  by (simp add: dom_update)

lemma deleted_name: "n \<notin> fst ` set (AList.delete n es)"
  by (induction es) auto

lemma entry_paths: "D @ [n] \<in> (\<lambda>e. D @ [fst e]) ` S \<longleftrightarrow> n \<in> fst ` S"
  by auto

lemma list_on_directory:
  assumes "lookup D fs = Some (Dir a es)"
  shows "listDirectoryContents D contents fs =
           (case a of
              Readable \<Rightarrow> (200, contents @ map (\<lambda>e. D @ [fst e]) es)
            | Denied \<Rightarrow> (500, contents)
            | Faulty k \<Rightarrow> (500, contents @ map (\<lambda>e. D @ [fst e]) (take k es)))"
  using assms
  by (simp add: listDirectoryContents_def exists_def is_directory_def directory_iterator_def
        split: access.splits)

lemma list_elsewhere:
  assumes "\<nexists>a es. lookup D fs = Some (Dir a es)"
  shows "snd (listDirectoryContents D contents fs) = contents"
  using assms
  by (cases "lookup D fs")
     (auto simp: listDirectoryContents_def exists_def is_directory_def split: node.splits)

text \<open>
  Claim C5, as the code has it. After a successful \<open>createFile P\<close>, a call of
  \<open>list (parent P)\<close> that succeeds returns a sequence that includes \<open>P\<close>; and after a
  subsequent successful \<open>deleteFile P\<close> the same call returns a sequence that excludes
  \<open>P\<close>. (Both calls start from an empty vector.)
\<close>

theorem create_list_delete_round_trip:
  assumes "createFile P fs = (200, fs1)"
  shows "(fst (listDirectoryContents (parent_path P) [] fs1) = 200
            \<longrightarrow> P \<in> set (snd (listDirectoryContents (parent_path P) [] fs1)))
         \<and> (\<forall>fs2. deleteFile P fs1 = (200, fs2)
            \<longrightarrow> P \<notin> set (snd (listDirectoryContents (parent_path P) [] fs2)))"
proof -
  from assms have put: "put P File fs = Some fs1"
    by (auto simp: createFile_def ofstream_def split: option.splits node.splits)
  then have "P \<noteq> []" by auto
  then obtain D n where P: "P = D @ [n]"
    by (metis append_butlast_last_id)
  from put_parent [OF put [unfolded P]] obtain a es where
    n: "n \<noteq> ''.''" and dir1: "walk_to D fs1 = Some (Dir a (AList.update n File es))"
    by auto
  have first: "fst (listDirectoryContents D [] fs1) = 200
                 \<longrightarrow> D @ [n] \<in> set (snd (listDirectoryContents D [] fs1))"
  proof (cases "D = []")
    case True
    then show ?thesis
      by (simp add: listDirectoryContents_def exists_def lookup_def)
  next
    case False
    then have "lookup D fs1 = Some (Dir a (AList.update n File es))"
      using dir1 by (simp add: lookup_def)
    from list_on_directory [OF this, of "[]"] show ?thesis
      using updated_name [of n File es]
      by (cases a) (simp_all add: entry_paths del: image_iff)
  qed
  have second: "D @ [n] \<notin> set (snd (listDirectoryContents D [] fs2))"
    if del: "deleteFile (D @ [n]) fs1 = (200, fs2)" for fs2
  proof -
    from del have "del (D @ [n]) fs1 = Some fs2"
      by (auto simp: deleteFile_def fs_remove_def is_regular_file_def
               split: if_splits option.splits node.splits)
    from del_parent [OF this] obtain a' es' where
      dir2: "walk_to D fs2 = Some (Dir a' (AList.delete n es'))"
      by auto
    show ?thesis
    proof (cases "D = []")
      case True
      then show ?thesis
        by (simp add: listDirectoryContents_def exists_def lookup_def)
    next
      case False
      then have "lookup D fs2 = Some (Dir a' (AList.delete n es'))"
        using dir2 by (simp add: lookup_def)
      from list_on_directory [OF this, of "[]"] show ?thesis
        using deleted_name [of n es'] set_take_subset [of _ "AList.delete n es'"]
        by (cases a') (auto simp: entry_paths simp del: image_iff)
    qed
  qed
  from first second show ?thesis
    by (simp add: P parent_path_def)
qed

theorem create_list_delete_round_trip_witness:
  "createFile [''t'', ''new.txt''] (Dir Readable [(''t'', Dir Readable [(''a.txt'', File)])])
     = (200, Dir Readable [(''t'', Dir Readable [(''a.txt'', File), (''new.txt'', File)])])
   \<and> listDirectoryContents [''t''] []
         (Dir Readable [(''t'', Dir Readable [(''a.txt'', File), (''new.txt'', File)])])
     = (200, [[''t'', ''a.txt''], [''t'', ''new.txt'']])
   \<and> [''t'', ''new.txt'']
       \<in> set (snd (listDirectoryContents (parent_path [''t'', ''new.txt'']) []
                   (Dir Readable [(''t'', Dir Readable [(''a.txt'', File), (''new.txt'', File)])])))
   \<and> deleteFile [''t'', ''new.txt'']
         (Dir Readable [(''t'', Dir Readable [(''a.txt'', File), (''new.txt'', File)])])
     = (200, Dir Readable [(''t'', Dir Readable [(''a.txt'', File)])])
   \<and> [''t'', ''new.txt'']
       \<notin> set (snd (listDirectoryContents (parent_path [''t'', ''new.txt'']) []
                   (Dir Readable [(''t'', Dir Readable [(''a.txt'', File)])])))"
proof -
  have created:
    "createFile [''t'', ''new.txt''] (Dir Readable [(''t'', Dir Readable [(''a.txt'', File)])])
       = (200, Dir Readable [(''t'', Dir Readable [(''a.txt'', File), (''new.txt'', File)])])"
    by (simp add: createFile_def ofstream_def lookup_def)
  have listed:
    "listDirectoryContents [''t''] []
         (Dir Readable [(''t'', Dir Readable [(''a.txt'', File), (''new.txt'', File)])])
     = (200, [[''t'', ''a.txt''], [''t'', ''new.txt'']])"
    by (simp add: listDirectoryContents_def exists_def is_directory_def lookup_def
          directory_iterator_def)
  have deleted:
    "deleteFile [''t'', ''new.txt'']
         (Dir Readable [(''t'', Dir Readable [(''a.txt'', File), (''new.txt'', File)])])
     = (200, Dir Readable [(''t'', Dir Readable [(''a.txt'', File)])])"
    by (simp add: deleteFile_def exists_def is_regular_file_def lookup_def fs_remove_def)
  have parent: "parent_path [''t'', ''new.txt''] = [''t'']"
    by (simp add: parent_path_def)
  show ?thesis
    using created listed deleted create_list_delete_round_trip [OF created]
    by (simp add: parent)
qed

text \<open>The claim as first stated has the listing include \<open>P\<close> whenever the parent
  directory exists. A file can be created in a directory that may not be enumerated; the
  listing then fails with 500 and holds nothing.\<close>

theorem created_file_not_listed:
  "exists [''box''] write_only
   \<and> createFile [''box'', ''x''] write_only = (200, Dir Readable [(''box'', Dir Denied [(''x'', File)])])
   \<and> listDirectoryContents (parent_path [''box'', ''x'']) []
         (Dir Readable [(''box'', Dir Denied [(''x'', File)])]) = (500, [])"
  by (simp add: write_only_def createFile_def ofstream_def lookup_def exists_def
        listDirectoryContents_def is_directory_def directory_iterator_def parent_path_def)

section \<open>The two facades\<close>

















section \<open>The console controller\<close>

subsection \<open>What a step means for the loop\<close>

text \<open>After \<open>Continue\<close> the loop runs its body again, which starts by printing the menu;
  after \<open>Abort\<close> it does not: \<open>start\<close> ends with the exception.\<close>

lemma loop_continues:
  "iteration command st = (command', Continue st') \<Longrightarrow> loop command st = loop command' st'"
  by (subst loop.simps) simp

lemma loop_aborts:
  "iteration command st = (command', Abort e st') \<Longrightarrow> loop command st = Some (Throws e st')"
  by (subst loop.simps) simp

lemma iteration_prints_menu:
  "cin_good st \<Longrightarrow> nl \<notin> set line \<Longrightarrow> cin_buf st = line @ nl # rest \<Longrightarrow>
     iteration command st = (line, dispatch line (st\<lparr>cin_buf := rest, cout := cout st @ menu\<rparr>))"
proof -
  assume good: "cin_good st" and line: "nl \<notin> set line" and buf: "cin_buf st = line @ nl # rest"
  have "dropWhile (\<lambda>c. c \<noteq> nl) (line @ nl # rest) = nl # rest"
    and "takeWhile (\<lambda>c. c \<noteq> nl) (line @ nl # rest) = line"
    using line by (induction line) auto
  with good buf show ?thesis
    by (cases st) (simp add: iteration_def getline_def print_def)
qed

subsection \<open>Command lines that are not numbers\<close>

lemma stoi_nine: "stoi ''9'' = Inr 9"
  by (simp add: stoi_def isspace_def digit_of_def decimal_def Let_def)

lemma dispatch_not_nine:
  "command \<noteq> ''9'' \<Longrightarrow>
     dispatch command st =
       (case processCommand command st of
          Returns st' \<Rightarrow> Continue st'
        | Throws e st' \<Rightarrow> Abort e st'
        | Undefined \<Rightarrow> Unpredictable)"
  by (simp add: dispatch_def)

text \<open>A line that parses to a number outside the menu is reported and the loop goes
  on.\<close>

lemma number_outside_menu_is_reported:
  assumes "stoi line = Inr k" and "k < 1 \<or> 9 < k"
  shows "dispatch line st
           = Continue (print (nl # ''Unknown command. Please try again.'' @ [nl]) st)"
proof -
  from assms have "line \<noteq> ''9''" using stoi_nine by auto
  with assms show ?thesis
    by (auto simp: dispatch_not_nine processCommand_def)
qed

text \<open>
  Claim C1 says that an input line that is not a valid integer command is reported as an
  unknown command and that the loop goes on. The code does this only for lines that parse
  to a number outside 1..9. For a line that \<^verbatim>\<open>std::stoi\<close> rejects, \<open>processCommand\<close>
  leaves by the exception of \<^verbatim>\<open>stoi\<close>, nothing is printed, and the loop of \<open>start\<close>
  does not go on: the exception is caught nowhere.
\<close>

theorem unparsable_command_ends_the_program:
  assumes "stoi line = Inl e"
  shows "processCommand line st = Throws e st \<and> dispatch line st = Abort e st"
proof -
  from assms have "line \<noteq> ''9''" using stoi_nine by auto
  with assms show ?thesis
    by (simp add: dispatch_not_nine processCommand_def)
qed

lemma stoi_abc: "stoi ''abc'' = Inl Invalid_argument"
  by (simp add: stoi_def isspace_def digit_of_def decimal_def Let_def)

theorem unparsable_command_ends_the_program_witness:
  "stoi ''abc'' = Inl Invalid_argument
   \<and> processCommand ''abc'' (session []) = Throws Invalid_argument (session [])
   \<and> start (session (''abc'' @ [nl]))
       = Some (Throws Invalid_argument ((session []) \<lparr>cout := menu\<rparr>))"
proof -
  have run: "start (session (''abc'' @ [nl]))
       = Some (Throws Invalid_argument ((session []) \<lparr>cout := menu\<rparr>))"
    apply (simp add: start_def)
    apply (subst loop.simps)
    apply (simp add: iteration_def getline_def print_def session_def nl_def
        unparsable_command_ends_the_program [OF stoi_abc])
    done
  show ?thesis
    using stoi_abc run unparsable_command_ends_the_program [OF stoi_abc, of "session []"]
    by simp
qed

subsection \<open>Confirmation of destructive commands\<close>





subsection \<open>Dispatch on the parsed number\<close>

lemma show_int_digit:
  "show_int 1 = ''1''" "show_int 2 = ''2''" "show_int 3 = ''3''" "show_int 4 = ''4''"
  "show_int 5 = ''5''" "show_int 6 = ''6''" "show_int 7 = ''7''" "show_int 8 = ''8''"
  by (simp_all add: show_int_def digit_char_def)

lemma stoi_of_digit:
  "stoi ''1'' = Inr 1" "stoi ''2'' = Inr 2" "stoi ''3'' = Inr 3" "stoi ''4'' = Inr 4"
  "stoi ''5'' = Inr 5" "stoi ''6'' = Inr 6" "stoi ''7'' = Inr 7" "stoi ''8'' = Inr 8"
  by (simp_all add: stoi_def isspace_def digit_of_def decimal_def Let_def)

lemma processCommand_by_number:
  "stoi line = stoi line' \<Longrightarrow> processCommand line st = processCommand line' st"
  by (simp add: processCommand_def)

text \<open>
  Claim C10. The command is chosen by the number \<^verbatim>\<open>std::stoi\<close> reads at the start of
  the line, not by the whole line: a line that parses to \<open>k\<close> in 1..8, such as
  \<^verbatim>\<open>1abc\<close> or \<^verbatim>\<open> 2x\<close>, does exactly what the line \<open>k\<close> does. Only the line
  \<^verbatim>\<open>9\<close> itself leads to the exit confirmation: no other line ends the loop, and a line
  such as \<^verbatim>\<open>09\<close> or \<^verbatim>\<open>9x\<close> that parses to 9 leaves the state as it is, with
  nothing printed.
\<close>

theorem dispatch_by_parsed_number:
  "(stoi line = Inr k \<and> 1 \<le> k \<and> k \<le> 8 \<longrightarrow> dispatch line st = dispatch (show_int k) st)
   \<and> (stoi line = Inr 9 \<and> line \<noteq> ''9'' \<longrightarrow> dispatch line st = Continue st)
   \<and> (line \<noteq> ''9'' \<longrightarrow> (\<forall>st'. dispatch line st \<noteq> Break st'))
   \<and> stoi ''1abc'' = Inr 1 \<and> stoi '' 2x'' = Inr 2 \<and> stoi ''09'' = Inr 9
   \<and> stoi ''9x'' = Inr 9"
proof -
  have by_number: "dispatch line st = dispatch (show_int k) st"
    if parsed: "stoi line = Inr k" and range: "1 \<le> k" "k \<le> 8"
  proof -
    from range have "k \<in> {1, 2, 3, 4, 5, 6, 7, 8}" by auto
    then have digit: "stoi (show_int k) = Inr k" "show_int k \<noteq> ''9''"
      by (auto simp: show_int_digit stoi_of_digit)
    from parsed range have "line \<noteq> ''9''"
      using stoi_nine by auto
    with digit parsed show ?thesis
      by (simp add: dispatch_not_nine processCommand_by_number [of line "show_int k"])
  qed
  have silent: "dispatch line st = Continue st" if "stoi line = Inr 9" "line \<noteq> ''9''"
    using that by (simp add: dispatch_not_nine processCommand_def)
  have no_exit: "dispatch line st \<noteq> Break st'" if "line \<noteq> ''9''" for st'
    using that by (simp add: dispatch_not_nine split: result.splits)
  have examples: "stoi ''1abc'' = Inr 1" "stoi '' 2x'' = Inr 2" "stoi ''09'' = Inr 9"
    "stoi ''9x'' = Inr 9"
    by (simp_all add: stoi_def isspace_def digit_of_def decimal_def Let_def)
  from by_number silent no_exit examples show ?thesis by blast
qed

theorem dispatch_by_parsed_number_witness:
  "stoi '' 2x'' = Inr 2
   \<and> dispatch '' 2x'' (session (''t/a.txt'' @ [nl] @ ''y'' @ [nl]))
     = dispatch ''2'' (session (''t/a.txt'' @ [nl] @ ''y'' @ [nl]))
   \<and> stoi ''09'' = Inr 9
   \<and> dispatch ''09'' (session (''y'' @ [nl])) = Continue (session (''y'' @ [nl]))
   \<and> dispatch ''9'' (session (''y'' @ [nl]))
     = Break \<lparr>cin_buf = [], cin_good = True,
         cout = (nl # ''Are you sure you want to exit? (y/n): '') @ (nl # ''Goodbye!'' @ [nl]),
         disk = scenario, calls = []\<rparr>"
proof -
  have two: "stoi '' 2x'' = Inr 2" and nine: "stoi ''09'' = Inr 9"
    by (simp_all add: stoi_def isspace_def digit_of_def decimal_def Let_def)
  have leave: "dispatch ''9'' (session (''y'' @ [nl]))
     = Break \<lparr>cin_buf = [], cin_good = True,
         cout = (nl # ''Are you sure you want to exit? (y/n): '') @ (nl # ''Goodbye!'' @ [nl]),
         disk = scenario, calls = []\<rparr>"
    by (simp add: dispatch_def extract_char_def ignore_def print_def session_def isspace_def
          Let_def)
  show ?thesis
    using two nine leave
      dispatch_by_parsed_number [of "'' 2x''" 2 "session (''t/a.txt'' @ [nl] @ ''y'' @ [nl])"]
      dispatch_by_parsed_number [of "''09''" 9 "session (''y'' @ [nl])"]
    by (simp add: show_int_digit)
qed

end
